theory Spec2Isabelle
  imports Main
begin

section \<open>The publishable API key service\<close>

text \<open>
  A shallow embedding of \<^verbatim>\<open>PublishableApiKeyService\<close> (create, retrieve,
  listAndCount, revoke, isValid). The service is written against an ORM repository, an
  event bus and a transaction wrapper. Asynchronous calls are awaited one after the
  other, so every method is a function from the state of the persistent store and the
  event bus to a result and the state afterwards; a thrown \<^verbatim>\<open>MedusaError\<close> is the
  \<open>Inl\<close> branch of the result.
\<close>

subsection \<open>Data model\<close>

text \<open>
  The entity. Nullable columns are options (\<open>None\<close> is \<^verbatim>\<open>null\<close>); a
  \<^verbatim>\<open>Date\<close> is the number of milliseconds it holds.
\<close>

record PublishableApiKey =
  key_id :: string
  created_by :: "string option"
  revoked_by :: "string option"
  revoked_at :: "nat option"

text \<open>The \<^verbatim>\<open>context\<close> argument of create and revoke.\<close>

record Context =
  loggedInUserId :: string

datatype error_type = NOT_FOUND | NOT_ALLOWED

datatype MedusaError = MedusaError error_type string

text \<open>
  The persistent table of keys, in storage order, and the events emitted so far, oldest
  first. An event is its name and the \<^verbatim>\<open>id\<close> of its payload, which is \<open>None\<close>
  when the value put there is undefined.
\<close>

record service_state =
  rows :: "PublishableApiKey list"
  events :: "(string \<times> string option) list"

type_synonym 'a result = "(MedusaError + 'a) \<times> service_state"

text \<open>\<^verbatim>\<open>PublishableApiKeyService.Events\<close>\<close>

definition CREATED :: string where
  "CREATED = ''publishable_api_key.created''"

definition REVOKED :: string where
  "REVOKED = ''publishable_api_key.revoked''"

subsection \<open>Queries\<close>

text \<open>
  A selector is the set of field constraints a record has to meet, kept as the predicate
  it denotes. A find config carries the optional pagination and the relations to load.
\<close>

type_synonym Selector = "PublishableApiKey \<Rightarrow> bool"

record FindConfig =
  relations :: "string list"
  skip :: "nat option"
  take_cfg :: "nat option"

record Query =
  q_relations :: "string list"
  q_where :: Selector
  q_skip :: "nat option"
  q_take :: "nat option"

text \<open>The empty config \<^verbatim>\<open>{}\<close>, the default of retrieve.\<close>

definition empty_config :: FindConfig where
  "empty_config = \<lparr>relations = [], skip = None, take_cfg = None\<rparr>"

text \<open>
  Modelled from the spec: \<^verbatim>\<open>buildQuery\<close> (utils) is not part of the sources at hand.
  The selector becomes the where clause and the pagination of the config is passed on.
\<close>

definition buildQuery :: "Selector \<Rightarrow> FindConfig \<Rightarrow> Query" where
  "buildQuery selector config =
     \<lparr>q_relations = relations config, q_where = selector,
      q_skip = skip config, q_take = take_cfg config\<rparr>"

subsection \<open>The repository, the event bus and the atomic phase\<close>

text \<open>
  Modelled from the spec: the entity class and the repository's create are not part of the
  sources at hand. A record that was built and not persisted yet has the fields it was
  given and nothing else; its id is not set (\<open>None\<close> is undefined), because the record
  store assigns the id when it persists the record.
\<close>

record BuiltPublishableApiKey =
  built_id :: "string option"
  built_created_by :: "string option"

text \<open>
  Modelled from the spec: the repository's create is not part of the sources at hand.
  It builds a record from the fields given, here \<open>created_by\<close> alone, and stores
  nothing.
\<close>

definition repo_create :: "string \<Rightarrow> BuiltPublishableApiKey" where
  "repo_create creator = \<lparr>built_id = None, built_created_by = Some creator\<rparr>"

text \<open>
  Modelled from the spec: the repository's save is not part of the sources at hand.
  It persists a record: a stored record with the same id is replaced, a record with a new
  id is added to the table. It returns the persisted record.
\<close>

definition repo_save :: "PublishableApiKey \<Rightarrow> service_state \<Rightarrow> PublishableApiKey \<times> service_state" where
  "repo_save k s =
     (if key_id k \<in> set (map key_id (rows s))
      then (k, s\<lparr>rows := map (\<lambda>r. if key_id r = key_id k then k else r) (rows s)\<rparr>)
      else (k, s\<lparr>rows := rows s @ [k]\<rparr>))"

text \<open>
  Modelled from the spec: the repository's save of a built record is not part of the
  sources at hand. It persists the record as a new, active one: the id is assigned now
  (\<open>new_id\<close>, the unique identifier the store generates, for a record that has none),
  \<open>revoked_at\<close> and \<open>revoked_by\<close> are null. It returns the persisted record.
\<close>

definition repo_save_built :: "string \<Rightarrow> BuiltPublishableApiKey \<Rightarrow> service_state \<Rightarrow> PublishableApiKey \<times> service_state" where
  "repo_save_built new_id b s =
     repo_save
       \<lparr>key_id = (case built_id b of None \<Rightarrow> new_id | Some i \<Rightarrow> i),
        created_by = built_created_by b, revoked_by = None, revoked_at = None\<rparr> s"

text \<open>
  Modelled from the spec: the repository's find-one-with-relations is not part of the
  sources at hand. It yields the first stored record that meets the where clause, if any.
\<close>

definition findOneWithRelations :: "string list \<Rightarrow> Query \<Rightarrow> service_state \<Rightarrow> PublishableApiKey option" where
  "findOneWithRelations rels query s = find (q_where query) (rows s)"

text \<open>
  Modelled from the spec: the repository's find-and-count is not part of the sources at
  hand. It yields one page of the records that meet the where clause (after \<open>skip\<close>
  records, at most \<open>take\<close> of them; no skip is offset 0, no take is no limit) and the
  total number of records that meet it.
\<close>

definition findAndCount :: "Query \<Rightarrow> service_state \<Rightarrow> PublishableApiKey list \<times> nat" where
  "findAndCount query s =
     (let matching = filter (q_where query) (rows s);
          skipped = drop (case q_skip query of None \<Rightarrow> 0 | Some n \<Rightarrow> n) matching
      in ((case q_take query of None \<Rightarrow> skipped | Some n \<Rightarrow> take n skipped),
          length matching))"

text \<open>
  Modelled from the spec: the event bus is not part of the sources at hand. Emitting
  within the current transaction adds the event (name and payload id) to the events of
  that transaction.
\<close>

definition emit :: "string \<Rightarrow> string option \<Rightarrow> service_state \<Rightarrow> service_state" where
  "emit eventName payload_id s = s\<lparr>events := events s @ [(eventName, payload_id)]\<rparr>"

text \<open>
  Modelled from the spec: \<^verbatim>\<open>atomicPhase_\<close> of the transaction base service is not
  part of the sources at hand. The work runs on the state; when it fails, all its writes
  and emitted events are dropped and the failure is passed on; otherwise they commit
  together.
\<close>

definition atomicPhase :: "(service_state \<Rightarrow> 'a result) \<Rightarrow> service_state \<Rightarrow> 'a result" where
  "atomicPhase work s =
     (case work s of
        (Inl e, _) \<Rightarrow> (Inl e, s)
      | (Inr v, s') \<Rightarrow> (Inr v, s'))"

subsection \<open>The service\<close>

text \<open>
  \<^verbatim>\<open>retrieve_\<close>: the generic retrieve by selector. A config that is not given
  (\<open>None\<close>) is the empty config.
\<close>

definition retrieve_sel :: "Selector \<Rightarrow> FindConfig option \<Rightarrow> service_state \<Rightarrow> PublishableApiKey result" where
  "retrieve_sel selector config s =
     (let built = buildQuery selector (case config of None \<Rightarrow> empty_config | Some c \<Rightarrow> c);
          query = built\<lparr>q_relations := []\<rparr>
      in case findOneWithRelations (q_relations built) query s of
           None \<Rightarrow> (Inl (MedusaError NOT_FOUND ''PublishableApiKey was not found''), s)
         | Some publishableApiKey \<Rightarrow> (Inr publishableApiKey, s))"

definition retrieve :: "string \<Rightarrow> FindConfig option \<Rightarrow> service_state \<Rightarrow> PublishableApiKey result" where
  "retrieve publishableApiKeyId config s =
     retrieve_sel (\<lambda>k. key_id k = publishableApiKeyId) config s"

text \<open>
  \<^verbatim>\<open>create\<close>: the record is built from \<open>created_by\<close>, the created event is
  emitted with the id that the built record has at that point, then the record is saved;
  all in one atomic phase. \<open>new_id\<close> is the identifier the store generates for this
  record.
\<close>

definition create :: "string \<Rightarrow> Context \<Rightarrow> service_state \<Rightarrow> PublishableApiKey result" where
  "create new_id context s =
     atomicPhase (\<lambda>manager.
       let publishableApiKey = repo_create (loggedInUserId context);
           manager1 = emit CREATED (built_id publishableApiKey) manager;
           (saved, manager2) = repo_save_built new_id publishableApiKey manager1
       in (Inr saved, manager2)) s"

text \<open>
  \<^verbatim>\<open>listAndCount\<close>: a config that is not given (\<open>None\<close>) is
  \<^verbatim>\<open>{ skip: 0, take: 20 }\<close>.
\<close>

definition listAndCount :: "Selector \<Rightarrow> FindConfig option \<Rightarrow> service_state \<Rightarrow> (PublishableApiKey list \<times> nat) result" where
  "listAndCount selector config s =
     (let cfg = (case config of
                   None \<Rightarrow> \<lparr>relations = [], skip = Some 0, take_cfg = Some 20\<rparr>
                 | Some c \<Rightarrow> c);
          query = buildQuery selector cfg
      in (Inr (findAndCount query s), s))"

text \<open>
  \<^verbatim>\<open>revoke\<close>: \<open>now\<close> is the value of \<^verbatim>\<open>new Date()\<close>. A \<^verbatim>\<open>Date\<close> is truthy
  whatever it holds, so the guard \<^verbatim>\<open>if (pubKey.revoked_at)\<close> is the test for
  non-null.
\<close>

definition revoke :: "nat \<Rightarrow> string \<Rightarrow> Context \<Rightarrow> service_state \<Rightarrow> unit result" where
  "revoke now publishableApiKeyId context s =
     atomicPhase (\<lambda>manager.
       case retrieve publishableApiKeyId None manager of
         (Inl e, manager0) \<Rightarrow> (Inl e, manager0)
       | (Inr pubKey, manager0) \<Rightarrow>
           if revoked_at pubKey \<noteq> None
           then (Inl (MedusaError NOT_ALLOWED ''PublishableApiKey has already been revoked.''), manager0)
           else
             let pubKey1 = pubKey\<lparr>revoked_at := Some now\<rparr>;
                 pubKey2 = pubKey1\<lparr>revoked_by := Some (loggedInUserId context)\<rparr>;
                 (saved, manager1) = repo_save pubKey2 manager0;
                 manager2 = emit REVOKED (Some (key_id pubKey2)) manager1
             in (Inr (), manager2)) s"

text \<open>\<^verbatim>\<open>isValid\<close>: the strict comparison of \<open>revoked_by\<close> with null.\<close>

definition isValid :: "string \<Rightarrow> service_state \<Rightarrow> bool result" where
  "isValid publishableApiKeyId s =
     (case retrieve publishableApiKeyId None s of
        (Inl e, s') \<Rightarrow> (Inl e, s')
      | (Inr pubKey, s') \<Rightarrow> (Inr (revoked_by pubKey = None), s'))"

text \<open>The stored record with a given id, if there is one.\<close>

definition stored :: "service_state \<Rightarrow> string \<Rightarrow> PublishableApiKey option" where
  "stored s i = find (\<lambda>k. key_id k = i) (rows s)"

subsection \<open>Runs of the service\<close>

text \<open>
  One call of a method of the service, with its arguments and with what the environment
  supplies to it (the generated id for create, the current date for revoke).
\<close>

datatype op =
    Create string Context
  | Retrieve string
  | ListAndCount Selector "FindConfig option"
  | Revoke nat string Context
  | IsValid string

text \<open>The state a call leaves behind.\<close>

fun step :: "op \<Rightarrow> service_state \<Rightarrow> service_state" where
  "step (Create new_id context) s = snd (create new_id context s)"
| "step (Retrieve publishableApiKeyId) s = snd (retrieve publishableApiKeyId None s)"
| "step (ListAndCount selector config) s = snd (listAndCount selector config s)"
| "step (Revoke now publishableApiKeyId context) s = snd (revoke now publishableApiKeyId context s)"
| "step (IsValid publishableApiKeyId) s = snd (isValid publishableApiKeyId s)"

text \<open>A sequence of calls, from the first to the last, starting in the empty store.\<close>

definition init_state :: service_state where
  "init_state = \<lparr>rows = [], events = []\<rparr>"

fun run :: "op list \<Rightarrow> service_state \<Rightarrow> service_state" where
  "run [] s = s"
| "run (c # cs) s = run cs (step c s)"

text \<open>
  The id of a record is a unique identifier: the id generated for a create is not the id
  of a stored record.
\<close>

fun generated_id_unique :: "op \<Rightarrow> service_state \<Rightarrow> bool" where
  "generated_id_unique (Create new_id context) s = (new_id \<notin> set (map key_id (rows s)))"
| "generated_id_unique _ s = True"

text \<open>
  The two fields a revocation writes are null together or non-null together, in every
  stored record.
\<close>

definition fields_agree :: "service_state \<Rightarrow> bool" where
  "fields_agree s = list_all (\<lambda>k. (revoked_by k = None) = (revoked_at k = None)) (rows s)"

section \<open>Properties\<close>

subsection \<open>Looking up records by id\<close>

lemma find_app:
  "find P (xs @ ys) = (case find P xs of None \<Rightarrow> find P ys | Some x \<Rightarrow> Some x)"
  by (induction xs) auto

lemma find_map_replace:
  "find (\<lambda>r. key_id r = j) (map (\<lambda>r. if key_id r = key_id k then k else r) xs) =
     (if j = key_id k then (if key_id k \<in> set (map key_id xs) then Some k else None)
      else find (\<lambda>r. key_id r = j) xs)"
  by (induction xs) auto

lemma find_None_ids: "find (\<lambda>r. key_id r = j) xs = None \<longleftrightarrow> j \<notin> set (map key_id xs)"
  by (induction xs) auto

lemma find_Some_ids: "find (\<lambda>r. key_id r = j) xs = Some k \<Longrightarrow> k \<in> set xs \<and> key_id k = j"
  by (induction xs) (auto split: if_splits)

lemma stored_None_iff: "stored s i = None \<longleftrightarrow> i \<notin> set (map key_id (rows s))"
  unfolding stored_def by (rule find_None_ids)

lemma stored_key_id: "stored s i = Some k \<Longrightarrow> key_id k = i"
  unfolding stored_def by (rule find_Some_ids [THEN conjunct2])

lemma stored_in_rows: "stored s i = Some k \<Longrightarrow> k \<in> set (rows s)"
  unfolding stored_def by (rule find_Some_ids [THEN conjunct1])

lemma find_of_row:
  "distinct (map key_id xs) \<Longrightarrow> k \<in> set xs \<Longrightarrow> find (\<lambda>r. key_id r = key_id k) xs = Some k"
  by (induction xs) force+

lemma stored_of_row:
  "distinct (map key_id (rows s)) \<Longrightarrow> k \<in> set (rows s) \<Longrightarrow> stored s (key_id k) = Some k"
  unfolding stored_def by (rule find_of_row)

subsection \<open>The repository and the event bus\<close>

lemma stored_repo_save:
  "stored (snd (repo_save k s)) j = (if j = key_id k then Some k else stored s j)"
proof (cases "key_id k \<in> set (map key_id (rows s))")
  case True
  then show ?thesis
    by (simp add: stored_def repo_save_def find_map_replace)
next
  case False
  then have "find (\<lambda>r. key_id r = key_id k) (rows s) = None"
    by (simp only: find_None_ids not_False_eq_True)
  with False show ?thesis
    by (simp add: stored_def repo_save_def find_app split: option.splits)
qed

lemma events_repo_save: "events (snd (repo_save k s)) = events s"
  by (simp add: repo_save_def)

lemma stored_emit: "stored (emit n p s) j = stored s j"
  by (simp add: stored_def emit_def)

lemma events_emit: "events (emit n p s) = events s @ [(n, p)]"
  by (simp add: emit_def)

subsection \<open>The methods, unfolded\<close>

lemma retrieve_stored:
  "retrieve i None s =
     (case stored s i of
        None \<Rightarrow> (Inl (MedusaError NOT_FOUND ''PublishableApiKey was not found''), s)
      | Some k \<Rightarrow> (Inr k, s))"
  by (simp add: retrieve_def retrieve_sel_def buildQuery_def findOneWithRelations_def
      stored_def empty_config_def)

lemma revoke_expand:
  "revoke now i ctx s =
     (case stored s i of
        None \<Rightarrow> (Inl (MedusaError NOT_FOUND ''PublishableApiKey was not found''), s)
      | Some k \<Rightarrow>
          if revoked_at k \<noteq> None
          then (Inl (MedusaError NOT_ALLOWED ''PublishableApiKey has already been revoked.''), s)
          else (Inr (),
                emit REVOKED (Some (key_id k))
                  (snd (repo_save (k\<lparr>revoked_at := Some now, revoked_by := Some (loggedInUserId ctx)\<rparr>) s))))"
  by (simp add: revoke_def atomicPhase_def retrieve_stored Let_def split: option.splits prod.splits)

lemma create_expand:
  "create new_id ctx s =
     (Inr \<lparr>key_id = new_id, created_by = Some (loggedInUserId ctx),
            revoked_by = None, revoked_at = None\<rparr>,
      snd (repo_save \<lparr>key_id = new_id, created_by = Some (loggedInUserId ctx),
                        revoked_by = None, revoked_at = None\<rparr>
             (emit CREATED None s)))"
  by (simp add: create_def atomicPhase_def Let_def repo_create_def repo_save_built_def
      repo_save_def split: prod.splits)

lemma isValid_expand:
  "isValid i s =
     (case stored s i of
        None \<Rightarrow> (Inl (MedusaError NOT_FOUND ''PublishableApiKey was not found''), s)
      | Some k \<Rightarrow> (Inr (revoked_by k = None), s))"
  by (simp add: isValid_def retrieve_stored split: option.splits)

lemma listAndCount_state: "snd (listAndCount sel cfg s) = s"
  by (simp add: listAndCount_def Let_def)

lemma retrieve_state: "snd (retrieve i None s) = s"
  by (simp add: retrieve_stored split: option.splits)

lemma isValid_state: "snd (isValid i s) = s"
  by (simp add: isValid_expand split: option.splits)

lemma stored_create:
  "stored (snd (create new_id ctx s)) j =
     (if j = new_id
      then Some \<lparr>key_id = new_id, created_by = Some (loggedInUserId ctx),
                  revoked_by = None, revoked_at = None\<rparr>
      else stored s j)"
  by (simp add: create_expand stored_repo_save stored_emit)

lemma events_create: "events (snd (create new_id ctx s)) = events s @ [(CREATED, None)]"
  by (simp add: create_expand events_repo_save events_emit)

lemma stored_revoke_other:
  "j \<noteq> i \<Longrightarrow> stored (snd (revoke now i ctx s)) j = stored s j"
  by (auto simp add: revoke_expand stored_emit stored_repo_save dest: stored_key_id
      split: option.splits)

subsection \<open>The revocation fields agree on every run\<close>

lemma list_all_replace:
  "list_all P xs \<Longrightarrow> P k \<Longrightarrow> list_all P (map (\<lambda>r. if c r then k else r) xs)"
  by (induction xs) simp_all

lemma fields_agree_repo_save:
  "fields_agree s \<Longrightarrow> (revoked_by k = None) = (revoked_at k = None) \<Longrightarrow>
   fields_agree (snd (repo_save k s))"
  by (simp add: fields_agree_def repo_save_def list_all_replace)

lemma fields_agree_emit: "fields_agree (emit n p s) = fields_agree s"
  by (simp add: fields_agree_def emit_def)

lemma fields_agree_create: "fields_agree s \<Longrightarrow> fields_agree (snd (create new_id ctx s))"
  by (simp add: create_expand fields_agree_repo_save fields_agree_emit)

lemma fields_agree_revoke: "fields_agree s \<Longrightarrow> fields_agree (snd (revoke now i ctx s))"
  by (simp add: revoke_expand fields_agree_repo_save fields_agree_emit split: option.splits)

lemma fields_agree_step: "fields_agree s \<Longrightarrow> fields_agree (step c s)"
  by (cases c)
    (simp_all add: fields_agree_create fields_agree_revoke retrieve_state isValid_state
      listAndCount_state)

lemma fields_agree_run: "fields_agree s \<Longrightarrow> fields_agree (run cs s)"
  by (induction cs arbitrary: s) (simp_all add: fields_agree_step)

lemma fields_agree_init: "fields_agree init_state"
  by (simp add: fields_agree_def init_state_def)

lemma fields_agree_stored:
  "fields_agree s \<Longrightarrow> stored s i = Some k \<Longrightarrow> (revoked_by k = None) = (revoked_at k = None)"
  using stored_in_rows [of s i k] by (simp add: fields_agree_def list_all_iff)

text \<open>The scenario of a key that is created and then revoked.\<close>

lemma run_create_revoke:
  "run [Create ''k1'' \<lparr>loggedInUserId = ''u1''\<rparr>, Revoke 5 ''k1'' \<lparr>loggedInUserId = ''u2''\<rparr>] init_state
     = \<lparr>rows = [\<lparr>key_id = ''k1'', created_by = Some ''u1'', revoked_by = Some ''u2'', revoked_at = Some 5\<rparr>],
        events = [(CREATED, None), (REVOKED, Some ''k1'')]\<rparr>"
  by (simp add: init_state_def create_expand revoke_expand repo_save_def
      emit_def stored_def)

subsection \<open>Revoking\<close>

text \<open>
  C1. Revoking a stored record whose \<open>revoked_at\<close> is null succeeds: afterwards the record
  stored under the id is the old one with \<open>revoked_at\<close> set to the current date (non-null)
  and \<open>revoked_by\<close> set to the revoker, and exactly one event was added, the revoked event,
  whose payload is the id of the record.
\<close>

theorem revoke_active_record:
  assumes "stored s i = Some k" and "revoked_at k = None"
  shows "\<exists>s'. revoke now i ctx s = (Inr (), s') \<and>
           stored s' i = Some (k\<lparr>revoked_at := Some now, revoked_by := Some (loggedInUserId ctx)\<rparr>) \<and>
           events s' = events s @ [(REVOKED, Some (key_id k))] \<and> key_id k = i"
proof -
  let ?k' = "k\<lparr>revoked_at := Some now, revoked_by := Some (loggedInUserId ctx)\<rparr>"
  let ?s' = "emit REVOKED (Some (key_id k)) (snd (repo_save ?k' s))"
  have id: "key_id k = i"
    using assms(1) by (rule stored_key_id)
  have "revoke now i ctx s = (Inr (), ?s')"
    using assms by (simp add: revoke_expand)
  moreover have "stored ?s' i = Some ?k'"
    using id by (simp add: stored_emit stored_repo_save)
  moreover have "events ?s' = events s @ [(REVOKED, Some (key_id k))]"
    by (simp add: events_emit events_repo_save)
  ultimately show ?thesis
    using id by blast
qed

theorem revoke_active_record_witness:
  "stored \<lparr>rows = [\<lparr>key_id = ''k1'', created_by = Some ''u1'', revoked_by = None, revoked_at = None\<rparr>], events = []\<rparr> ''k1''
     = Some \<lparr>key_id = ''k1'', created_by = Some ''u1'', revoked_by = None, revoked_at = None\<rparr> \<and>
   (\<exists>s'. revoke 7 ''k1'' \<lparr>loggedInUserId = ''u2''\<rparr>
            \<lparr>rows = [\<lparr>key_id = ''k1'', created_by = Some ''u1'', revoked_by = None, revoked_at = None\<rparr>], events = []\<rparr>
          = (Inr (), s') \<and>
        stored s' ''k1'' = Some \<lparr>key_id = ''k1'', created_by = Some ''u1'', revoked_by = Some ''u2'', revoked_at = Some 7\<rparr> \<and>
        events s' = [(REVOKED, Some ''k1'')])"
proof -
  let ?k = "\<lparr>key_id = ''k1'', created_by = Some ''u1'', revoked_by = None, revoked_at = None\<rparr>"
  let ?s = "\<lparr>rows = [?k], events = []\<rparr>"
  have h1: "stored ?s ''k1'' = Some ?k"
    by (simp add: stored_def)
  have h2: "revoked_at ?k = None"
    by simp
  show ?thesis
    using h1 revoke_active_record [OF h1 h2, of 7 "\<lparr>loggedInUserId = ''u2''\<rparr>"] by simp
qed

text \<open>
  C2. Revoking a stored record whose \<open>revoked_at\<close> is already non-null fails with
  NotAllowed and leaves the state as it was: the record stored under the id is unchanged
  and no event is emitted.
\<close>

theorem revoke_revoked_record:
  assumes "stored s i = Some k" and "revoked_at k \<noteq> None"
  shows "revoke now i ctx s =
           (Inl (MedusaError NOT_ALLOWED ''PublishableApiKey has already been revoked.''), s) \<and>
         stored (snd (revoke now i ctx s)) i = Some k \<and>
         events (snd (revoke now i ctx s)) = events s"
  using assms by (simp add: revoke_expand)

theorem revoke_revoked_record_witness:
  "stored \<lparr>rows = [\<lparr>key_id = ''k1'', created_by = Some ''u1'', revoked_by = Some ''u2'', revoked_at = Some 5\<rparr>],
           events = [(REVOKED, Some ''k1'')]\<rparr> ''k1''
     = Some \<lparr>key_id = ''k1'', created_by = Some ''u1'', revoked_by = Some ''u2'', revoked_at = Some 5\<rparr> \<and>
   revoke 6 ''k1'' \<lparr>loggedInUserId = ''u3''\<rparr>
     \<lparr>rows = [\<lparr>key_id = ''k1'', created_by = Some ''u1'', revoked_by = Some ''u2'', revoked_at = Some 5\<rparr>],
      events = [(REVOKED, Some ''k1'')]\<rparr>
     = (Inl (MedusaError NOT_ALLOWED ''PublishableApiKey has already been revoked.''),
        \<lparr>rows = [\<lparr>key_id = ''k1'', created_by = Some ''u1'', revoked_by = Some ''u2'', revoked_at = Some 5\<rparr>],
         events = [(REVOKED, Some ''k1'')]\<rparr>)"
proof -
  let ?k = "\<lparr>key_id = ''k1'', created_by = Some ''u1'', revoked_by = Some ''u2'', revoked_at = Some (5::nat)\<rparr>"
  let ?s = "\<lparr>rows = [?k], events = [(REVOKED, Some ''k1'')]\<rparr>"
  have h1: "stored ?s ''k1'' = Some ?k"
    by (simp add: stored_def)
  have h2: "revoked_at ?k \<noteq> None"
    by simp
  show ?thesis
    using h1 revoke_revoked_record [OF h1 h2, of 6 "\<lparr>loggedInUserId = ''u3''\<rparr>"] by simp
qed


subsection \<open>The lifecycle is one-way\<close>

text \<open>
  C3. Whatever a single call of the service does (create, retrieve, listAndCount, revoke or
  isValid), a record that is stored with a non-null \<open>revoked_at\<close> before the call is
  still stored under its id with a non-null \<open>revoked_at\<close> after it. For create, the
  generated id is a unique identifier: it is not the id of a stored record.
\<close>

theorem revoked_at_never_reverts:
  assumes "stored s i = Some k" and "revoked_at k \<noteq> None" and "generated_id_unique c s"
  shows "\<exists>k'. stored (step c s) i = Some k' \<and> revoked_at k' \<noteq> None"
proof (cases c)
  case (Create new_id ctx)
  from assms(1) have "i \<in> set (map key_id (rows s))"
    using stored_None_iff [of s i] by simp
  with assms(3) Create have "i \<noteq> new_id"
    by auto
  with assms(1,2) Create show ?thesis
    by (simp add: stored_create)
next
  case (Retrieve j)
  with assms(1,2) show ?thesis
    by (simp add: retrieve_state)
next
  case (ListAndCount sel cfg)
  with assms(1,2) show ?thesis
    by (simp add: listAndCount_state)
next
  case (Revoke now j ctx)
  show ?thesis
  proof (cases "j = i")
    case True
    with assms(1,2) Revoke show ?thesis
      by (simp add: revoke_expand)
  next
    case False
    then have "stored (snd (revoke now j ctx s)) i = stored s i"
      by (simp add: stored_revoke_other)
    with assms(1,2) Revoke show ?thesis
      by simp
  qed
next
  case (IsValid j)
  with assms(1,2) show ?thesis
    by (simp add: isValid_state)
qed

theorem revoked_at_never_reverts_witness:
  "stored \<lparr>rows = [\<lparr>key_id = ''k1'', created_by = Some ''u1'', revoked_by = Some ''u2'', revoked_at = Some 5\<rparr>],
           events = []\<rparr> ''k1''
     = Some \<lparr>key_id = ''k1'', created_by = Some ''u1'', revoked_by = Some ''u2'', revoked_at = Some 5\<rparr> \<and>
   generated_id_unique (Create ''k2'' \<lparr>loggedInUserId = ''u3''\<rparr>)
     \<lparr>rows = [\<lparr>key_id = ''k1'', created_by = Some ''u1'', revoked_by = Some ''u2'', revoked_at = Some 5\<rparr>],
      events = []\<rparr> \<and>
   (\<exists>k'. stored (step (Create ''k2'' \<lparr>loggedInUserId = ''u3''\<rparr>)
                 \<lparr>rows = [\<lparr>key_id = ''k1'', created_by = Some ''u1'', revoked_by = Some ''u2'', revoked_at = Some 5\<rparr>],
                  events = []\<rparr>) ''k1'' = Some k' \<and> revoked_at k' \<noteq> None) \<and>
   (\<exists>k'. stored (step (Revoke 6 ''k1'' \<lparr>loggedInUserId = ''u3''\<rparr>)
                 \<lparr>rows = [\<lparr>key_id = ''k1'', created_by = Some ''u1'', revoked_by = Some ''u2'', revoked_at = Some 5\<rparr>],
                  events = []\<rparr>) ''k1'' = Some k' \<and> revoked_at k' \<noteq> None)"
proof -
  let ?k = "\<lparr>key_id = ''k1'', created_by = Some ''u1'', revoked_by = Some ''u2'', revoked_at = Some (5::nat)\<rparr>"
  let ?s = "\<lparr>rows = [?k], events = []\<rparr>"
  have h1: "stored ?s ''k1'' = Some ?k"
    by (simp add: stored_def)
  have h2: "revoked_at ?k \<noteq> None"
    by simp
  have h3: "generated_id_unique (Create ''k2'' \<lparr>loggedInUserId = ''u3''\<rparr>) ?s"
    by simp
  have h4: "generated_id_unique (Revoke 6 ''k1'' \<lparr>loggedInUserId = ''u3''\<rparr>) ?s"
    by simp
  show ?thesis
    using h1 h3 revoked_at_never_reverts [OF h1 h2 h3] revoked_at_never_reverts [OF h1 h2 h4]
    by blast
qed


subsection \<open>Creating\<close>

text \<open>
  C4. The claim is that the created event carries the id of the newly persisted record.
  The code emits the event before it saves: the id it reads is the id of the built record,
  which is not set yet. Creating a key in the empty store, with \<open>k1\<close> the id the store
  generates, persists and returns the record with id \<open>k1\<close>, and the one event emitted is
  the created event with an undefined id.
\<close>

theorem create_emits_undefined_id:
  "create ''k1'' \<lparr>loggedInUserId = ''u1''\<rparr> init_state =
     (Inr \<lparr>key_id = ''k1'', created_by = Some ''u1'', revoked_by = None, revoked_at = None\<rparr>,
      \<lparr>rows = [\<lparr>key_id = ''k1'', created_by = Some ''u1'', revoked_by = None, revoked_at = None\<rparr>],
       events = [(CREATED, None)]\<rparr>)"
  by (simp add: create_def atomicPhase_def repo_create_def emit_def repo_save_built_def
      repo_save_def init_state_def Let_def)

text \<open>
  C7. Every call of create returns a record that is stored afterwards, with \<open>created_by\<close>
  the creator and \<open>revoked_at\<close> null; retrieving by the id of the returned record right
  away yields this very record, whose \<open>revoked_at\<close> is null.
\<close>

theorem create_then_retrieve:
  "\<exists>k s'. create new_id ctx s = (Inr k, s') \<and>
          created_by k = Some (loggedInUserId ctx) \<and> revoked_at k = None \<and>
          k \<in> set (rows s') \<and>
          retrieve (key_id k) None s' = (Inr k, s')"
proof -
  let ?k = "\<lparr>key_id = new_id, created_by = Some (loggedInUserId ctx),
             revoked_by = None, revoked_at = None\<rparr>"
  let ?s' = "snd (create new_id ctx s)"
  have run: "create new_id ctx s = (Inr ?k, ?s')"
    by (simp add: create_expand)
  have fields: "created_by ?k = Some (loggedInUserId ctx) \<and> revoked_at ?k = None"
    by simp
  have st: "stored ?s' (key_id ?k) = Some ?k"
    by (simp add: stored_create)
  then have mem: "?k \<in> set (rows ?s')"
    by (rule stored_in_rows)
  have "retrieve (key_id ?k) None ?s' = (Inr ?k, ?s')"
    using st by (simp add: retrieve_stored)
  with run fields mem show ?thesis
    by blast
qed

subsection \<open>Validity\<close>

text \<open>
  C5. For the id of a stored record, isValid returns true exactly when \<open>revoked_by\<close> of
  the record is null; \<open>revoked_at\<close> plays no part (in the instance below it is non-null
  and the answer is true).
\<close>

theorem isValid_inspects_revoked_by:
  assumes "stored s i = Some k"
  shows "isValid i s = (Inr (revoked_by k = None), s)"
  using assms by (simp add: isValid_expand)

theorem isValid_inspects_revoked_by_witness:
  "stored \<lparr>rows = [\<lparr>key_id = ''k1'', created_by = Some ''u1'', revoked_by = None, revoked_at = Some 5\<rparr>],
           events = []\<rparr> ''k1''
     = Some \<lparr>key_id = ''k1'', created_by = Some ''u1'', revoked_by = None, revoked_at = Some 5\<rparr> \<and>
   isValid ''k1''
     \<lparr>rows = [\<lparr>key_id = ''k1'', created_by = Some ''u1'', revoked_by = None, revoked_at = Some 5\<rparr>],
      events = []\<rparr>
     = (Inr True,
        \<lparr>rows = [\<lparr>key_id = ''k1'', created_by = Some ''u1'', revoked_by = None, revoked_at = Some 5\<rparr>],
         events = []\<rparr>)"
proof -
  let ?k = "\<lparr>key_id = ''k1'', created_by = Some ''u1'', revoked_by = None, revoked_at = Some (5::nat)\<rparr>"
  let ?s = "\<lparr>rows = [?k], events = []\<rparr>"
  have h1: "stored ?s ''k1'' = Some ?k"
    by (simp add: stored_def)
  show ?thesis
    using h1 isValid_inspects_revoked_by [OF h1] by simp
qed


text \<open>
  C6. In a state reached from the empty store by calls of the service alone, every
  stored record has \<open>revoked_by\<close> null exactly when \<open>revoked_at\<close> is null, so isValid
  returns exactly whether \<open>revoked_at\<close> is null.
\<close>

theorem isValid_equivalent_on_reachable:
  assumes "stored (run cs init_state) i = Some k"
  shows "(revoked_by k = None) = (revoked_at k = None) \<and>
         isValid i (run cs init_state) = (Inr (revoked_at k = None), run cs init_state)"
proof -
  have "fields_agree (run cs init_state)"
    using fields_agree_init by (rule fields_agree_run)
  then have eq: "(revoked_by k = None) = (revoked_at k = None)"
    using assms by (rule fields_agree_stored)
  with assms show ?thesis
    by (simp add: isValid_expand)
qed

theorem isValid_equivalent_on_reachable_witness:
  "stored (run [Create ''k1'' \<lparr>loggedInUserId = ''u1''\<rparr>,
                Revoke 5 ''k1'' \<lparr>loggedInUserId = ''u2''\<rparr>] init_state) ''k1''
     = Some \<lparr>key_id = ''k1'', created_by = Some ''u1'', revoked_by = Some ''u2'', revoked_at = Some 5\<rparr> \<and>
   fst (isValid ''k1'' (run [Create ''k1'' \<lparr>loggedInUserId = ''u1''\<rparr>,
                             Revoke 5 ''k1'' \<lparr>loggedInUserId = ''u2''\<rparr>] init_state)) = Inr False"
proof -
  let ?cs = "[Create ''k1'' \<lparr>loggedInUserId = ''u1''\<rparr>, Revoke 5 ''k1'' \<lparr>loggedInUserId = ''u2''\<rparr>]"
  let ?k = "\<lparr>key_id = ''k1'', created_by = Some ''u1'', revoked_by = Some ''u2'', revoked_at = Some (5::nat)\<rparr>"
  have h: "stored (run ?cs init_state) ''k1'' = Some ?k"
    unfolding run_create_revoke by (simp add: stored_def)
  show ?thesis
    using h isValid_equivalent_on_reachable [OF h] by simp
qed


text \<open>
  C10. For an id that no stored record has, isValid does not return false: it fails with
  NotFound, the failure of retrieve for this id.
\<close>

theorem isValid_not_found:
  assumes "i \<notin> set (map key_id (rows s))"
  shows "isValid i s = (Inl (MedusaError NOT_FOUND ''PublishableApiKey was not found''), s) \<and>
         fst (isValid i s) \<noteq> Inr False \<and>
         (\<exists>e. fst (retrieve i None s) = Inl e \<and> fst (isValid i s) = Inl e)"
proof -
  from assms have "stored s i = None"
    by (simp only: stored_None_iff not_False_eq_True)
  then show ?thesis
    by (simp add: isValid_expand retrieve_stored)
qed

theorem isValid_not_found_witness:
  "''k2'' \<notin> set (map key_id
      [\<lparr>key_id = ''k1'', created_by = Some ''u1'', revoked_by = None, revoked_at = None\<rparr>]) \<and>
   fst (isValid ''k2''
      \<lparr>rows = [\<lparr>key_id = ''k1'', created_by = Some ''u1'', revoked_by = None, revoked_at = None\<rparr>], events = []\<rparr>)
     = Inl (MedusaError NOT_FOUND ''PublishableApiKey was not found'')"
proof -
  let ?k = "\<lparr>key_id = ''k1'', created_by = Some ''u1'', revoked_by = None, revoked_at = None :: nat option\<rparr>"
  let ?s = "\<lparr>rows = [?k], events = []\<rparr>"
  have h: "''k2'' \<notin> set (map key_id (rows ?s))"
    by simp
  show ?thesis
    using h isValid_not_found [OF h] by simp
qed


subsection \<open>Retrieving and listing\<close>

text \<open>
  C8. retrieve returns a stored record with the id when there is one, and fails with
  NotFound when there is none; its outcome is that of the generic retrieve, passed on as
  it is.
\<close>

theorem retrieve_found_or_not_found:
  "(i \<in> set (map key_id (rows s)) \<longrightarrow>
      (\<exists>k. retrieve i None s = (Inr k, s) \<and> k \<in> set (rows s) \<and> key_id k = i \<and> stored s i = Some k)) \<and>
   (i \<notin> set (map key_id (rows s)) \<longrightarrow>
      retrieve i None s = (Inl (MedusaError NOT_FOUND ''PublishableApiKey was not found''), s)) \<and>
   retrieve i None s = retrieve_sel (\<lambda>k. key_id k = i) None s"
proof (intro conjI impI)
  assume "i \<in> set (map key_id (rows s))"
  then obtain k where k: "stored s i = Some k"
    using stored_None_iff [of s i] by (cases "stored s i") auto
  then have "retrieve i None s = (Inr k, s)"
    by (simp add: retrieve_stored)
  with k stored_in_rows [OF k] stored_key_id [OF k]
  show "\<exists>k. retrieve i None s = (Inr k, s) \<and> k \<in> set (rows s) \<and> key_id k = i \<and> stored s i = Some k"
    by blast
next
  assume "i \<notin> set (map key_id (rows s))"
  then have "stored s i = None"
    by (simp only: stored_None_iff not_False_eq_True)
  then show "retrieve i None s = (Inl (MedusaError NOT_FOUND ''PublishableApiKey was not found''), s)"
    by (simp add: retrieve_stored)
next
  show "retrieve i None s = retrieve_sel (\<lambda>k. key_id k = i) None s"
    by (simp add: retrieve_def)
qed

theorem retrieve_found_or_not_found_witness:
  "''k1'' \<in> set (map key_id
      [\<lparr>key_id = ''k1'', created_by = Some ''u1'', revoked_by = None, revoked_at = None\<rparr>]) \<and>
   ''k2'' \<notin> set (map key_id
      [\<lparr>key_id = ''k1'', created_by = Some ''u1'', revoked_by = None, revoked_at = None\<rparr>]) \<and>
   fst (retrieve ''k1'' None
      \<lparr>rows = [\<lparr>key_id = ''k1'', created_by = Some ''u1'', revoked_by = None, revoked_at = None\<rparr>], events = []\<rparr>)
     = Inr \<lparr>key_id = ''k1'', created_by = Some ''u1'', revoked_by = None, revoked_at = None\<rparr> \<and>
   fst (retrieve ''k2'' None
      \<lparr>rows = [\<lparr>key_id = ''k1'', created_by = Some ''u1'', revoked_by = None, revoked_at = None\<rparr>], events = []\<rparr>)
     = Inl (MedusaError NOT_FOUND ''PublishableApiKey was not found'')"
proof -
  let ?k = "\<lparr>key_id = ''k1'', created_by = Some ''u1'', revoked_by = None, revoked_at = None :: nat option\<rparr>"
  let ?s = "\<lparr>rows = [?k], events = []\<rparr>"
  show ?thesis
    using retrieve_found_or_not_found [of "''k1''" ?s] retrieve_found_or_not_found [of "''k2''" ?s]
    by (auto simp add: stored_def)
qed


text \<open>
  C9. listAndCount without a pagination config is listAndCount with offset 0 and page
  size 20: it returns the first 20 matching records at most, and a total that is the number
  of matching records, which is no less than the number of records returned.
\<close>

theorem listAndCount_default_page:
  "\<exists>page total.
     listAndCount selector None s = (Inr (page, total), s) \<and>
     page = take 20 (drop 0 (filter selector (rows s))) \<and>
     total = length (filter selector (rows s)) \<and>
     length page \<le> 20 \<and> length page \<le> total \<and>
     listAndCount selector None s =
       listAndCount selector (Some \<lparr>relations = [], skip = Some 0, take_cfg = Some 20\<rparr>) s"
  by (simp add: listAndCount_def findAndCount_def buildQuery_def Let_def)


end
